theory Spec2Isabelle
  imports Main
begin

section \<open>The Core orchestrator of Otto (otto/core.go)\<close>

text \<open>
  A shallow embedding of \<^verbatim>\<open>otto/core.go\<close>. A Go \<^verbatim>\<open>error\<close> is its message
  (\<^verbatim>\<open>fmt.Errorf\<close> with \<^verbatim>\<open>%s\<close> is concatenation), \<^verbatim>\<open>nil\<close> is \<open>None\<close>, and a
  function returning \<^verbatim>\<open>(T, error)\<close> returns \<open>error + T\<close>. Everything Core does to
  the outside (the user interface, the disk, the plugins) is threaded through a
  \<open>world\<close> value whose \<open>trace\<close> lists the calls in the order they were made.
\<close>

subsection \<open>Data: Appfile, tuple, contexts, plugins\<close>

type_synonym error = string

record application =
  Name :: string
  Type :: string

record project =
  Infrastructure :: string

record infrastructure =
  Flavor :: string

text \<open>
  \<^verbatim>\<open>appfile.File\<close>. The package \<^verbatim>\<open>appfile\<close> is not among the sources: the results of
  the accessors \<^verbatim>\<open>ID()\<close> and \<^verbatim>\<open>ActiveInfrastructure()\<close> (\<^verbatim>\<open>nil\<close> is \<open>None\<close>) are
  taken as fields.
\<close>

record appfile =
  ID :: string
  Application :: application
  Project :: project
  ActiveInfrastructure :: "infrastructure option"

record tuple =
  App :: string
  Infra :: string
  InfraFlavor :: string

datatype backend = Backend string

text \<open>
  \<^verbatim>\<open>app.Context\<close>. The \<^verbatim>\<open>Shared\<close> part is the directory backend; its \<^verbatim>\<open>Ui\<close> is the
  one user interface of the world.
\<close>

record app_context =
  Dir :: string
  CacheDir :: string
  Tuple :: tuple
  Appfile :: appfile
  ctx_Application :: application
  Action :: string
  ActionArgs :: "string list"
  DevDepFragments :: "string list"
  Directory :: backend

text \<open>A Go \<^verbatim>\<open>map[string]string\<close>; \<open>None\<close> is the \<^verbatim>\<open>nil\<close> map.\<close>

type_synonym credentials = "(string \<rightharpoonup> string) option"

record infra_context =
  infra_Dir :: string
  infra_Infra :: infrastructure
  infra_Directory :: backend
  infra_Action :: string
  infra_ActionArgs :: "string list"
  InfraCreds :: credentials

record compile_result =
  DevDepFragmentPath :: string

record dev_dep =
  Files :: "string list"

text \<open>
  The interfaces \<^verbatim>\<open>app.App\<close> and \<^verbatim>\<open>infrastructure.Infrastructure\<close>: a plugin is what
  its methods answer to the contexts handed over. What a plugin does on disk is its own
  business; Core's call is recorded in the trace.
\<close>

record app_impl =
  app_Compile :: "app_context \<Rightarrow> error + compile_result"
  app_Build :: "app_context \<Rightarrow> error option"
  app_Dev :: "app_context \<Rightarrow> error option"
  app_DevDep :: "app_context \<Rightarrow> app_context \<Rightarrow> error + dev_dep"

record infra_impl =
  infra_Compile :: "infra_context \<Rightarrow> error + compile_result"
  infra_Execute :: "infra_context \<Rightarrow> error option"
  infra_Creds :: "infra_context \<Rightarrow> error + credentials"

text \<open>A vertex of the compiled graph; \<open>vaddr\<close> is the pointer Go compares with \<^verbatim>\<open>==\<close>.\<close>

record vertex =
  vaddr :: nat
  File :: appfile
  VertexName :: string

datatype execute_task = ExecuteTaskDev | ExecuteTaskInfra | ExecuteTaskOther nat

record execute_opts =
  Task :: execute_task
  opt_Action :: string
  Args :: "string list"

text \<open>
  \<^verbatim>\<open>Core\<close>. A factory \<^verbatim>\<open>func() (T, error)\<close> is what it returns when called.
  \<open>graph_Root\<close> is the answer of \<^verbatim>\<open>appfileCompiled.Graph.Root()\<close>.
\<close>

record core =
  appfile :: appfile
  graph_Root :: "error + vertex"
  apps :: "tuple \<rightharpoonup> (error + app_impl)"
  dir :: backend
  infras :: "string \<rightharpoonup> (error + infra_impl)"
  dataDir :: string
  localDir :: string
  compileDir :: string

subsection \<open>The world: user interface, disk, trace\<close>

text \<open>
  A call Core makes to the outside, recorded when it is made, whatever it answers
  (\<open>AppCompile\<close> with the answer). Reads of the disk are not recorded.
\<close>

datatype event =
    UiHeader string
  | UiMessage string
  | UiInput string string string
  | OsMkdirAll string
  | OsRemoveAll string
  | AppFactory tuple
  | InfraFactory string
  | AppCompile app_context "error + compile_result"
  | AppBuild app_context
  | AppDev app_context
  | AppDevDep app_context app_context
  | InfraCompile infra_context
  | InfraExecute infra_context
  | InfraCredsCall infra_context
  | CryptWrite string string string
  | DepRelFiles dev_dep string
  | AppWriteDevDep string dev_dep

text \<open>
  \<open>files\<close> maps the path of a regular file to its content, \<open>dirs\<close> are the directories
  that exist, \<open>answers\<close> are the replies \<^verbatim>\<open>Ui.Input\<close> will give, in order; when none is
  left the user never answers.
\<close>

record world =
  files :: "string \<rightharpoonup> string"
  dirs :: "string set"
  answers :: "(error + string) list"
  trace :: "event list"

text \<open>
  What the code relies on from outside this file and cannot be read off the sources:
  which paths refuse a write, how a tuple, a task and a list of errors print, the JSON
  codec, the cipher, and the dev-dep descriptor's codec and \<^verbatim>\<open>RelFiles\<close>.
\<close>

record externals =
  io_error :: "string \<Rightarrow> error option"
  Tuple_String :: "tuple \<Rightarrow> string"
  Task_String :: "execute_task \<Rightarrow> string"
  errors_String :: "error list \<Rightarrow> error"
  json_Marshal :: "credentials \<Rightarrow> error + string"
  json_Unmarshal :: "string \<Rightarrow> error + credentials"
  encrypt :: "string \<Rightarrow> string \<Rightarrow> string"
  decrypt :: "string \<Rightarrow> string \<Rightarrow> error + string"
  encode_DevDep :: "dev_dep \<Rightarrow> string"
  decode_DevDep :: "string \<Rightarrow> error + dev_dep"
  dep_RelFiles :: "dev_dep \<Rightarrow> string \<Rightarrow> error + dev_dep"

definition emit :: "event \<Rightarrow> world \<Rightarrow> world" where
  "emit e w = w\<lparr>trace := trace w @ [e]\<rparr>"

subsection \<open>Paths: filepath.Join, filepath.Clean, filepath.Dir (Unix)\<close>

fun split_path :: "string \<Rightarrow> string list" where
  "split_path [] = [[]]"
| "split_path (c # cs) =
     (if c = CHR ''/'' then [] # split_path cs
      else (case split_path cs of [] \<Rightarrow> [[c]] | x # xs \<Rightarrow> (c # x) # xs))"

fun join_with :: "string \<Rightarrow> string list \<Rightarrow> string" where
  "join_with sep [] = []"
| "join_with sep [x] = x"
| "join_with sep (x # y # ys) = x @ sep @ join_with sep (y # ys)"

text \<open>
  One path element of \<^verbatim>\<open>Clean\<close>'s scan; the elements kept so far are a stack, the last
  one first. An empty element and \<^verbatim>\<open>.\<close> are dropped; \<^verbatim>\<open>..\<close> removes the element before
  it, is dropped at the root, and is kept at the start of a relative path.
\<close>

definition clean_step :: "bool \<Rightarrow> string list \<Rightarrow> string \<Rightarrow> string list" where
  "clean_step rooted st el =
     (if el = [] \<or> el = ''.'' then st
      else if el = ''..'' then
        (case st of
           [] \<Rightarrow> if rooted then [] else [''..'']
         | t # ts \<Rightarrow> if t = ''..'' then ''..'' # st else ts)
      else el # st)"

definition Clean :: "string \<Rightarrow> string" where
  "Clean path =
     (if path = [] then ''.''
      else
        let rooted = (hd path = CHR ''/'');
            out = join_with ''/'' (rev (foldl (clean_step rooted) [] (split_path path)))
        in if rooted then ''/'' @ out else if out = [] then ''.'' else out)"

definition Join :: "string list \<Rightarrow> string" where
  "Join elem =
     (case dropWhile (\<lambda>e. e = []) elem of
        [] \<Rightarrow> []
      | e # es \<Rightarrow> Clean (join_with ''/'' (e # es)))"

definition filepath_Dir :: "string \<Rightarrow> string" where
  "filepath_Dir path = Clean (rev (dropWhile (\<lambda>c. c \<noteq> CHR ''/'') (rev path)))"

subsection \<open>The disk\<close>

definition os_Stat :: "string \<Rightarrow> world \<Rightarrow> bool" where
  "os_Stat path w = (path \<in> dom (files w) \<or> path \<in> dirs w)"

definition ancestors :: "string \<Rightarrow> string list" where
  "ancestors path =
     [take i path. i \<leftarrow> [1..<length path], path ! i = CHR ''/''] @ [path]"

definition os_MkdirAll :: "externals \<Rightarrow> string \<Rightarrow> world \<Rightarrow> error option \<times> world" where
  "os_MkdirAll x path w =
     (case io_error x path of
        Some err \<Rightarrow> (Some err, emit (OsMkdirAll path) w)
      | None \<Rightarrow> (None, emit (OsMkdirAll path) (w\<lparr>dirs := dirs w \<union> set (ancestors path)\<rparr>)))"

definition under :: "string \<Rightarrow> string \<Rightarrow> bool" where
  "under path q = (q = path \<or> take (Suc (length path)) q = path @ ''/'')"

definition os_RemoveAll :: "externals \<Rightarrow> string \<Rightarrow> world \<Rightarrow> error option \<times> world" where
  "os_RemoveAll x path w =
     (case io_error x path of
        Some err \<Rightarrow> (Some err, emit (OsRemoveAll path) w)
      | None \<Rightarrow>
          (None, emit (OsRemoveAll path)
             (w\<lparr>files := (\<lambda>q. if under path q then None else files w q),
                dirs := {q \<in> dirs w. \<not> under path q}\<rparr>)))"

subsection \<open>Contexts and plugin lookup\<close>

definition appContext ::
  "externals \<Rightarrow> core \<Rightarrow> appfile \<Rightarrow> world \<Rightarrow> (error + app_context) \<times> world" where
  "appContext x c f w =
     (case ActiveInfrastructure f of
        None \<Rightarrow>
          (Inl (''infrastructure not found in appfile: '' @ Infrastructure (Project f)), w)
      | Some config \<Rightarrow>
          let tuple = \<lparr>App = Type (Application f),
                       Infra = Infrastructure (Project f),
                       InfraFlavor = Flavor config\<rparr>;
              outputDir =
                (if ID f \<noteq> ID (appfile c) then Join [compileDir c, ''dep-'' @ ID f]
                 else Join [compileDir c, ''app'']);
              cacheDir = Join [dataDir c, ''cache'', ID f]
          in (case os_MkdirAll x cacheDir w of
                (Some err, w') \<Rightarrow>
                  (Inl (''error making cache directory '' @ [CHR 0x27] @ cacheDir @ [CHR 0x27]
                        @ '': '' @ err), w')
              | (None, w') \<Rightarrow>
                  (Inr \<lparr>Dir = outputDir, CacheDir = cacheDir, Tuple = tuple, Appfile = f,
                        ctx_Application = Application f, Action = [], ActionArgs = [],
                        DevDepFragments = [], Directory = dir c\<rparr>, w')))"

definition app :: "externals \<Rightarrow> core \<Rightarrow> app_context \<Rightarrow> world \<Rightarrow> (error + app_impl) \<times> world" where
  "app x c ctx w =
     (case apps c (Tuple ctx) of
        None \<Rightarrow>
          (Inl (''app implementation for tuple not found: '' @ Tuple_String x (Tuple ctx)), w)
      | Some f \<Rightarrow>
          (case f of
             Inl err \<Rightarrow>
               (Inl (''app failed to start properly: '' @ err), emit (AppFactory (Tuple ctx)) w)
           | Inr result \<Rightarrow> (Inr result, emit (AppFactory (Tuple ctx)) w)))"

definition infra :: "core \<Rightarrow> world \<Rightarrow> (error + infra_impl \<times> infra_context) \<times> world" where
  "infra c w =
     (case infras c (Infrastructure (Project (appfile c))) of
        None \<Rightarrow>
          (Inl (''infrastructure type not supported: ''
                @ Infrastructure (Project (appfile c))), w)
      | Some f \<Rightarrow>
          (case ActiveInfrastructure (appfile c) of
             None \<Rightarrow>
               (Inl (''infrastructure not found in appfile: ''
                     @ Infrastructure (Project (appfile c))), w)
           | Some config \<Rightarrow>
               (case f of
                  Inl err \<Rightarrow>
                    (Inl err, emit (InfraFactory (Infrastructure (Project (appfile c)))) w)
                | Inr i \<Rightarrow>
                    (Inr (i, \<lparr>infra_Dir =
                                Join [compileDir c,
                                      ''infra-'' @ Infrastructure (Project (appfile c))],
                              infra_Infra = config, infra_Directory = dir c,
                              infra_Action = [], infra_ActionArgs = [], InfraCreds = None\<rparr>),
                     emit (InfraFactory (Infrastructure (Project (appfile c)))) w))))"

subsection \<open>The graph walk (Core.walk)\<close>

text \<open>
  \<^verbatim>\<open>Graph.Walk\<close> belongs to another repository; it calls the callback once for a vertex
  whose dependencies are done, on goroutines of its own, and hands back the errors the
  callbacks returned. A walk is the schedule it follows: \<open>Called v\<close> is the moment the
  callback for \<open>v\<close> starts and loads the stop flag, \<open>Returned v\<close> the rest of that
  callback up to its return, deferred store included. Between the two, other callbacks
  may start or return. The walker's schedules call a vertex once and let every call
  return.
\<close>

datatype sched_event = Called vertex | Returned vertex

record 'l walk_state =
  stop :: bool
  inflight :: "(nat \<times> bool) list"
  errs :: "error list"
  loc :: 'l
  wld :: world

type_synonym 'l callback =
  "app_impl \<Rightarrow> app_context \<Rightarrow> bool \<Rightarrow> 'l \<Rightarrow> world \<Rightarrow> error option \<times> 'l \<times> world"

text \<open>Lines 175 to 193: the callback once it was not told to stop. \<open>'l\<close> is what \<open>f\<close> captured.\<close>

definition walk_vertex ::
  "externals \<Rightarrow> core \<Rightarrow> 'l callback \<Rightarrow> vertex \<Rightarrow> vertex \<Rightarrow> 'l \<Rightarrow> world
     \<Rightarrow> error option \<times> 'l \<times> world" where
  "walk_vertex x c f root raw l w =
     (case appContext x c (File raw) w of
        (Inl err, w1) \<Rightarrow>
          (Some (''Error loading Appfile for '' @ [CHR 0x27] @ VertexName raw @ [CHR 0x27]
                 @ '': '' @ err), l, w1)
      | (Inr appCtx, w1) \<Rightarrow>
          (case app x c appCtx w1 of
             (Inl err, w2) \<Rightarrow>
               (Some (''Error loading App implementation for '' @ [CHR 0x27] @ VertexName raw
                      @ [CHR 0x27] @ '': '' @ err), l, w2)
           | (Inr a, w2) \<Rightarrow> f a appCtx (vaddr raw = vaddr root) l w2))"

definition walk_step ::
  "externals \<Rightarrow> core \<Rightarrow> 'l callback \<Rightarrow> vertex \<Rightarrow> 'l walk_state \<Rightarrow> sched_event
     \<Rightarrow> 'l walk_state" where
  "walk_step x c f root s ev =
     (case ev of
        Called v \<Rightarrow> s\<lparr>inflight := inflight s @ [(vaddr v, stop s)]\<rparr>
      | Returned v \<Rightarrow>
          (case map_of (inflight s) (vaddr v) of
             None \<Rightarrow> s
           | Some told \<Rightarrow>
               let s' = s\<lparr>inflight := filter (\<lambda>p. fst p \<noteq> vaddr v) (inflight s)\<rparr>
               in if told then s'
                  else (case walk_vertex x c f root v (loc s) (wld s) of
                          (None, l, w) \<Rightarrow> s'\<lparr>loc := l, wld := w\<rparr>
                        | (Some err, l, w) \<Rightarrow>
                            s'\<lparr>stop := True, errs := errs s @ [err], loc := l, wld := w\<rparr>)))"

definition Graph_Walk ::
  "externals \<Rightarrow> core \<Rightarrow> 'l callback \<Rightarrow> vertex \<Rightarrow> sched_event list \<Rightarrow> 'l \<Rightarrow> world
     \<Rightarrow> 'l walk_state" where
  "Graph_Walk x c f root sched l w =
     foldl (walk_step x c f root)
       \<lparr>stop = False, inflight = [], errs = [], loc = l, wld = w\<rparr> sched"

definition walk ::
  "externals \<Rightarrow> core \<Rightarrow> 'l callback \<Rightarrow> sched_event list \<Rightarrow> 'l \<Rightarrow> world
     \<Rightarrow> error option \<times> 'l \<times> world" where
  "walk x c f sched l w =
     (case graph_Root c of
        Inl err \<Rightarrow> (Some (''Error loading app: '' @ err), l, w)
      | Inr root \<Rightarrow>
          let s = Graph_Walk x c f root sched l w
          in (if errs s = [] then None else Some (errors_String x (errs s)), loc s, wld s))"

subsection \<open>Compile\<close>

definition Compile_callback :: "(compile_result list) callback" where
  "Compile_callback a ctx root results w =
     (let w1 = emit (UiMessage
                  (if \<not> root then ''Compiling dependency '' @ [CHR 0x27]
                        @ Name (Application (Appfile ctx)) @ [CHR 0x27] @ ''...''
                   else ''Compiling main application...'')) w;
          ctx' = (if root
                  then ctx\<lparr>DevDepFragments :=
                         map DevDepFragmentPath
                           (filter (\<lambda>result. DevDepFragmentPath result \<noteq> []) results)\<rparr>
                  else ctx)
      in (case app_Compile a ctx' of
            Inl err \<Rightarrow> (Some err, results, emit (AppCompile ctx' (Inl err)) w1)
          | Inr result \<Rightarrow> (None, results @ [result], emit (AppCompile ctx' (Inr result)) w1)))"

definition Compile ::
  "externals \<Rightarrow> core \<Rightarrow> sched_event list \<Rightarrow> world \<Rightarrow> error option \<times> world" where
  "Compile x c sched w =
     (case infra c w of
        (Inl err, w1) \<Rightarrow> (Some err, w1)
      | (Inr (i, infraCtx), w1) \<Rightarrow>
          (case os_RemoveAll x (compileDir c) w1 of
             (Some err, w2) \<Rightarrow> (Some err, w2)
           | (None, w2) \<Rightarrow>
               (case infra_Compile i infraCtx of
                  Inl err \<Rightarrow> (Some err, emit (InfraCompile infraCtx) w2)
                | Inr r \<Rightarrow>
                    (case walk x c Compile_callback sched [] (emit (InfraCompile infraCtx) w2) of
                       (err, results, w3) \<Rightarrow> (None, w3)))))"

subsection \<open>Credentials (Core.creds)\<close>

text \<open>
  A call either returns, panics, or never returns because it waits for an answer the
  user does not give.
\<close>

datatype 'a outcome = Return 'a | Panic string | Blocked

definition Ui_Input ::
  "string \<Rightarrow> string \<Rightarrow> string \<Rightarrow> world \<Rightarrow> ((error + string) \<times> world) option" where
  "Ui_Input ident query description w =
     (case answers w of
        [] \<Rightarrow> None
      | a # as \<Rightarrow> Some (a, emit (UiInput ident query description) (w\<lparr>answers := as\<rparr>)))"

definition isSpace :: "char \<Rightarrow> bool" where
  "isSpace ch = (ch \<in> set [CHR '' '', CHR 0x09, CHR 0x0A, CHR 0x0B, CHR 0x0C, CHR 0x0D])"

definition TrimSpace :: "string \<Rightarrow> string" where
  "TrimSpace s = rev (dropWhile isSpace (rev (dropWhile isSpace s)))"

definition credsQueryPassExists :: string where
  "credsQueryPassExists =
     [CHR 0x0A]
     @ ''Infrastructure credentials are required for this operation. Otto found'' @ [CHR 0x0A]
     @ ''saved credentials that are password protected. Please enter the password'' @ [CHR 0x0A]
     @ ''to decrypt these credentials. You may also just hit <enter> and leave'' @ [CHR 0x0A]
     @ ''the password blank to force Otto to ask for the credentials again.'' @ [CHR 0x0A]"

definition credsQueryPassNew :: string where
  "credsQueryPassNew =
     [CHR 0x0A]
     @ ''This password will be used to encrypt and save the credentials so they'' @ [CHR 0x0A]
     @ ''don'' @ [CHR 0x27] @ ''t need to be repeated multiple times.'' @ [CHR 0x0A]"

definition credsFoundMessage :: string where
  "credsFoundMessage =
     ''Cached and encrypted infrastructure credentials found.'' @ [CHR 0x0A]
     @ ''Otto will now ask you for the password to decrypt these'' @ [CHR 0x0A]
     @ ''credentials.'' @ [CHR 0x0A, CHR 0x0A]"

definition credsNotFoundMessage :: string where
  "credsNotFoundMessage =
     ''Existing infrastructure credentials were not found! Otto will'' @ [CHR 0x0A]
     @ ''now ask you for infrastructure credentials. These will be encrypted'' @ [CHR 0x0A]
     @ ''and saved on disk so this doesn'' @ [CHR 0x27] @ ''t need to be repeated.''
     @ [CHR 0x0A, CHR 0x0A]
     @ ''IMPORTANT: If you'' @ [CHR 0x27] @ ''re re-entering new credentials, make sure the''
     @ [CHR 0x0A]
     @ ''credentials are for the same account, otherwise you may lose'' @ [CHR 0x0A]
     @ ''access to your existing infrastructure Otto set up.'' @ [CHR 0x0A, CHR 0x0A]"

text \<open>
  Modelled from the spec: \<^verbatim>\<open>cryptRead\<close> and \<^verbatim>\<open>cryptWrite\<close> are functions of this
  package whose file is not among the sources. The spec has Core depend only on
  \<^verbatim>\<open>decrypt(pw, bytes)\<close>, answering the plaintext or a bad-password error, and on
  \<^verbatim>\<open>encrypt(pw, bytes)\<close>, whose result is the file at the path.
\<close>

definition cryptRead :: "externals \<Rightarrow> string \<Rightarrow> string \<Rightarrow> world \<Rightarrow> error + string" where
  "cryptRead x path password w =
     (case files w path of
        None \<Rightarrow> Inl (''open '' @ path @ '': no such file or directory'')
      | Some content \<Rightarrow> decrypt x password content)"

definition cryptWrite ::
  "externals \<Rightarrow> string \<Rightarrow> string \<Rightarrow> string \<Rightarrow> world \<Rightarrow> error option \<times> world" where
  "cryptWrite x path password plaintext w =
     (case io_error x path of
        Some err \<Rightarrow> (Some err, emit (CryptWrite path password plaintext) w)
      | None \<Rightarrow>
          (None, emit (CryptWrite path password plaintext)
             (w\<lparr>files := (files w)(path \<mapsto> encrypt x password plaintext)\<rparr>)))"

text \<open>Lines 274 to 284: ask until the password is not empty.\<close>

function creds_password :: "world \<Rightarrow> ((error + string) \<times> world) outcome" where
  "creds_password w =
     (case Ui_Input ''creds_password'' ''Password for Encrypting Credentials''
             (TrimSpace credsQueryPassNew) w of
        None \<Rightarrow> Blocked
      | Some (Inl err, w') \<Rightarrow> Return (Inl err, w')
      | Some (Inr password, w') \<Rightarrow>
          if password = [] then creds_password w' else Return (Inr password, w'))"
  by pat_completeness auto
termination
  by (relation "measure (\<lambda>w. length (answers w))")
     (auto simp: Ui_Input_def emit_def split: list.splits)

declare creds_password.simps [simp del]

text \<open>Lines 255 to 301: acquire the credentials when there are none, then set them.\<close>

definition creds_acquire ::
  "externals \<Rightarrow> infra_impl \<Rightarrow> infra_context \<Rightarrow> string \<Rightarrow> credentials \<Rightarrow> world
     \<Rightarrow> (error option \<times> infra_context \<times> world) outcome" where
  "creds_acquire x i infraCtx path creds w =
     (if creds = None then
        (let w1 = emit (InfraCredsCall infraCtx) (emit (UiMessage credsNotFoundMessage) w)
         in case infra_Creds i infraCtx of
              Inl err \<Rightarrow> Return (Some err, infraCtx, w1)
            | Inr creds' \<Rightarrow>
                (case creds_password w1 of
                   Blocked \<Rightarrow> Blocked
                 | Panic msg \<Rightarrow> Panic msg
                 | Return (Inl err, w2) \<Rightarrow> Return (Some err, infraCtx, w2)
                 | Return (Inr password, w2) \<Rightarrow>
                     (case json_Marshal x creds' of
                        Inl err \<Rightarrow> Panic err
                      | Inr plaintext \<Rightarrow>
                          (case cryptWrite x path password plaintext w2 of
                             (Some err, w3) \<Rightarrow>
                               Return (Some (''error writing encrypted credentials: '' @ err),
                                       infraCtx, w3)
                           | (None, w3) \<Rightarrow>
                               Return (None, infraCtx\<lparr>InfraCreds := creds'\<rparr>, w3)))))
      else Return (None, infraCtx\<lparr>InfraCreds := creds\<rparr>, w))"

definition creds ::
  "externals \<Rightarrow> core \<Rightarrow> infra_impl \<Rightarrow> infra_context \<Rightarrow> world
     \<Rightarrow> (error option \<times> infra_context \<times> world) outcome" where
  "creds x c i infraCtx w =
     (let w1 = emit (UiHeader ''Detecting infrastructure credentials...'') w;
          path = Join [localDir c, ''creds'']
      in if os_Stat path w1 then
           (let w2 = emit (UiMessage credsFoundMessage) w1
            in case Ui_Input ''creds_password'' ''Encrypted Credentials Password''
                      (TrimSpace credsQueryPassExists) w2 of
                 None \<Rightarrow> Blocked
               | Some (Inl err, w3) \<Rightarrow> Return (Some err, infraCtx, w3)
               | Some (Inr value, w3) \<Rightarrow>
                   if value \<noteq> [] then
                     (case (case cryptRead x path value w3 of
                              Inl err \<Rightarrow> Inl err
                            | Inr plaintext \<Rightarrow> json_Unmarshal x plaintext) of
                        Inl err \<Rightarrow>
                          Return (Some (''error reading encrypted credentials: '' @ err
                              @ [CHR 0x0A, CHR 0x0A]
                              @ ''If this error persists, you can force Otto to ask for credentials''
                              @ [CHR 0x0A]
                              @ ''again by inputting the empty password as the password.''),
                            infraCtx, w3)
                      | Inr creds \<Rightarrow> Return (None, infraCtx, w3))
                   else creds_acquire x i infraCtx path None w3)
         else
           (case os_MkdirAll x (filepath_Dir path) w1 of
              (Some err, w2) \<Rightarrow> Return (Some err, infraCtx, w2)
            | (None, w2) \<Rightarrow> creds_acquire x i infraCtx path None w2))"

subsection \<open>Build, Dev, Execute\<close>

definition Build ::
  "externals \<Rightarrow> core \<Rightarrow> world \<Rightarrow> (error option \<times> world) outcome" where
  "Build x c w =
     (case infra c w of
        (Inl err, w1) \<Rightarrow> Return (Some err, w1)
      | (Inr (i, infraCtx), w1) \<Rightarrow>
          (case creds x c i infraCtx w1 of
             Blocked \<Rightarrow> Blocked
           | Panic msg \<Rightarrow> Panic msg
           | Return (Some err, infraCtx', w2) \<Rightarrow> Return (Some err, w2)
           | Return (None, infraCtx', w2) \<Rightarrow>
               (case graph_Root c of
                  Inl err \<Rightarrow> Return (Some err, w2)
                | Inr root \<Rightarrow>
                    (case appContext x c (File root) w2 of
                       (Inl err, w3) \<Rightarrow> Return (Some (''Error loading App: '' @ err), w3)
                     | (Inr rootCtx, w3) \<Rightarrow>
                         (case app x c rootCtx w3 of
                            (Inl err, w4) \<Rightarrow> Return (Some (''Error loading App: '' @ err), w4)
                          | (Inr rootApp, w4) \<Rightarrow>
                              Return (app_Build rootApp rootCtx,
                                      emit (AppBuild rootCtx) w4))))))"





definition executeApp ::
  "externals \<Rightarrow> core \<Rightarrow> execute_opts \<Rightarrow> world \<Rightarrow> (error option \<times> world) outcome" where
  "executeApp x c opts w =
     (case appContext x c (appfile c) w of
        (Inl err, w1) \<Rightarrow> Return (Some err, w1)
      | (Inr appCtx, w1) \<Rightarrow>
          (case app x c appCtx w1 of
             (Inl err, w2) \<Rightarrow> Return (Some err, w2)
           | (Inr a, w2) \<Rightarrow>
               let appCtx' = appCtx\<lparr>Action := opt_Action opts, ActionArgs := Args opts\<rparr>
               in (case Task opts of
                     ExecuteTaskDev \<Rightarrow> Return (app_Dev a appCtx', emit (AppDev appCtx') w2)
                   | ExecuteTaskInfra \<Rightarrow> Panic (''uknown task: '' @ Task_String x (Task opts))
                   | ExecuteTaskOther n \<Rightarrow>
                       Panic (''uknown task: '' @ Task_String x (Task opts)))))"

definition executeInfra ::
  "core \<Rightarrow> execute_opts \<Rightarrow> world \<Rightarrow> (error option \<times> world) outcome" where
  "executeInfra c opts w =
     (case infra c w of
        (Inl err, w1) \<Rightarrow> Return (Some err, w1)
      | (Inr (i, infraCtx), w1) \<Rightarrow>
          let infraCtx' = infraCtx\<lparr>infra_Action := opt_Action opts,
                                   infra_ActionArgs := Args opts\<rparr>
          in Return (infra_Execute i infraCtx', emit (InfraExecute infraCtx') w1))"

definition Execute ::
  "externals \<Rightarrow> core \<Rightarrow> execute_opts \<Rightarrow> world \<Rightarrow> (error option \<times> world) outcome" where
  "Execute x c opts w =
     (case Task opts of
        ExecuteTaskDev \<Rightarrow> executeApp x c opts w
      | ExecuteTaskInfra \<Rightarrow> executeInfra c opts w
      | ExecuteTaskOther n \<Rightarrow>
          Return (Some (''unknown task: '' @ Task_String x (Task opts)), w))"

subsection \<open>Reading a schedule and a trace\<close>

fun sched_vaddr :: "sched_event \<Rightarrow> nat" where
  "sched_vaddr (Called v) = vaddr v"
| "sched_vaddr (Returned v) = vaddr v"

text \<open>The schedule of a walk whose callbacks do not overlap.\<close>

definition one_by_one :: "vertex list \<Rightarrow> sched_event list" where
  "one_by_one vs = concat (map (\<lambda>v. [Called v, Returned v]) vs)"

text \<open>The invocations in flight that were not told to stop when they started.\<close>

definition running :: "'l walk_state \<Rightarrow> nat" where
  "running s = length (filter (\<lambda>p. \<not> snd p) (inflight s))"

text \<open>What the calls of \<^verbatim>\<open>app.Compile\<close> recorded in a trace returned: results and errors.\<close>

fun compiled :: "event list \<Rightarrow> compile_result list" where
  "compiled [] = []"
| "compiled (AppCompile ctx (Inr result) # es) = result # compiled es"
| "compiled (e # es) = compiled es"

fun compile_errors :: "event list \<Rightarrow> error list" where
  "compile_errors [] = []"
| "compile_errors (AppCompile ctx (Inl err) # es) = err # compile_errors es"
| "compile_errors (e # es) = compile_errors es"

fun compile_contexts :: "event list \<Rightarrow> app_context list" where
  "compile_contexts [] = []"
| "compile_contexts (AppCompile ctx r # es) = ctx # compile_contexts es"
| "compile_contexts (e # es) = compile_contexts es"



fun cache_writes :: "event list \<Rightarrow> event list" where
  "cache_writes [] = []"
| "cache_writes (DepRelFiles dep d # es) = DepRelFiles dep d # cache_writes es"
| "cache_writes (AppWriteDevDep path dep # es) = AppWriteDevDep path dep # cache_writes es"
| "cache_writes (e # es) = cache_writes es"

subsection \<open>Example inputs\<close>

definition demo_externals :: externals where
  "demo_externals =
     \<lparr>io_error = (\<lambda>path. None),
      Tuple_String = (\<lambda>t. App t @ ''/'' @ Infra t @ ''/'' @ InfraFlavor t),
      Task_String = (\<lambda>t. ''task''),
      errors_String = concat,
      json_Marshal = (\<lambda>m. Inr ''json''),
      json_Unmarshal = (\<lambda>s. Inr (Some [''AWS_KEY'' \<mapsto> ''x''])),
      encrypt = (\<lambda>password plaintext. password @ plaintext),
      decrypt = (\<lambda>password content.
        if take (length password) content = password
        then Inr (drop (length password) content) else Inl ''bad password''),
      encode_DevDep = (\<lambda>dep. concat (Files dep)),
      decode_DevDep = (\<lambda>content. Inr \<lparr>Files = [content]\<rparr>),
      dep_RelFiles = (\<lambda>dep d. Inr dep)\<rparr>"

definition demo_file :: "string \<Rightarrow> appfile" where
  "demo_file i =
     \<lparr>ID = i, Application = \<lparr>Name = i, Type = ''php''\<rparr>,
      Project = \<lparr>Infrastructure = ''aws''\<rparr>,
      ActiveInfrastructure = Some \<lparr>Flavor = ''simple''\<rparr>\<rparr>"

definition demo_vertex :: "nat \<Rightarrow> string \<Rightarrow> vertex" where
  "demo_vertex n i = \<lparr>vaddr = n, File = demo_file i, VertexName = i\<rparr>"

definition demo_app :: "bool \<Rightarrow> app_impl" where
  "demo_app ok =
     \<lparr>app_Compile = (\<lambda>ctx.
        if ok \<or> ID (Appfile ctx) = ''r''
        then Inr \<lparr>DevDepFragmentPath = Dir ctx @ ''/frag.sh''\<rparr>
        else Inl (''cannot compile '' @ ID (Appfile ctx))),
      app_Build = (\<lambda>ctx. None),
      app_Dev = (\<lambda>ctx. None),
      app_DevDep = (\<lambda>rootCtx ctx. Inr \<lparr>Files = []\<rparr>)\<rparr>"

definition demo_infra :: infra_impl where
  "demo_infra =
     \<lparr>infra_Compile = (\<lambda>ctx. Inr \<lparr>DevDepFragmentPath = []\<rparr>),
      infra_Execute = (\<lambda>ctx. None),
      infra_Creds = (\<lambda>ctx. Inr (Some [''AWS_KEY'' \<mapsto> ''y'']))\<rparr>"

definition demo_core :: "bool \<Rightarrow> core" where
  "demo_core ok =
     \<lparr>appfile = demo_file ''r'',
      graph_Root = Inr (demo_vertex 0 ''r''),
      apps = [\<lparr>App = ''php'', Infra = ''aws'', InfraFlavor = ''simple''\<rparr> \<mapsto> Inr (demo_app ok)],
      dir = Backend ''local'',
      infras = [''aws'' \<mapsto> Inr demo_infra],
      dataDir = ''/data'', localDir = ''/local'', compileDir = ''/c''\<rparr>"

definition demo_world :: "(error + string) list \<Rightarrow> world" where
  "demo_world as = \<lparr>files = Map.empty, dirs = {}, answers = as, trace = []\<rparr>"

definition demo_infraCtx :: infra_context where
  "demo_infraCtx =
     \<lparr>infra_Dir = ''/c/infra-aws'', infra_Infra = \<lparr>Flavor = ''simple''\<rparr>,
      infra_Directory = Backend ''local'', infra_Action = [], infra_ActionArgs = [],
      InfraCreds = None\<rparr>"

text \<open>A disk that holds \<^verbatim>\<open>{AWS_KEY:x}\<close> saved under the password \<^verbatim>\<open>correct\<close>.\<close>

definition demo_saved :: "(error + string) list \<Rightarrow> world" where
  "demo_saved as =
     \<lparr>files = [''/local/creds'' \<mapsto> ''correct{AWS_KEY:x}''], dirs = {''/local''},
      answers = as, trace = []\<rparr>"

text \<open>The context \<open>appContext\<close> builds for \<open>demo_file i\<close>, with output directory \<open>d\<close>.\<close>

definition demo_ctx :: "string \<Rightarrow> string \<Rightarrow> app_context" where
  "demo_ctx d i =
     \<lparr>Dir = d, CacheDir = ''/data/cache/'' @ i,
      Tuple = \<lparr>App = ''php'', Infra = ''aws'', InfraFlavor = ''simple''\<rparr>,
      Appfile = demo_file i, ctx_Application = \<lparr>Name = i, Type = ''php''\<rparr>,
      Action = [], ActionArgs = [], DevDepFragments = [], Directory = Backend ''local''\<rparr>"


subsection \<open>More readings and example inputs for Dev\<close>



fun headers :: "event list \<Rightarrow> string list" where
  "headers [] = []"
| "headers (UiHeader text # es) = text # headers es"
| "headers (e # es) = headers es"




section \<open>Properties\<close>

text \<open>Unfolding these evaluates a walk on the example inputs.\<close>

lemmas demo_defs = demo_externals_def demo_core_def demo_file_def demo_vertex_def demo_app_def
  demo_world_def

lemmas eval_defs = Graph_Walk_def walk_step_def walk_vertex_def appContext_def app_def
  Compile_callback_def os_MkdirAll_def Join_def Clean_def clean_step_def emit_def Let_def

subsection \<open>Paths\<close>

lemma split_path_nonempty: "split_path s \<noteq> []"
  by (induction s) (auto split: list.splits)

lemma split_path_append:
  "split_path (a @ CHR ''/'' # b) = split_path a @ split_path b"
  by (induction a) (auto simp: split_path_nonempty split: list.splits)

lemma split_path_single: "CHR ''/'' \<notin> set s \<Longrightarrow> split_path s = [s]"
  by (induction s) auto

lemma join_with_snoc:
  "join_with sep (xs @ [e]) = (if xs = [] then e else join_with sep xs @ sep @ e)"
  by (induction sep xs rule: join_with.induct) auto

text \<open>
  Joining a directory with one more path element that is a plain name (not empty, no
  separator, neither \<^verbatim>\<open>.\<close> nor \<^verbatim>\<open>..\<close>) puts the name last, after a prefix that depends
  on the directory only.
\<close>

lemma Join_plain_name:
  "\<exists>p. \<forall>e. e \<noteq> [] \<and> CHR ''/'' \<notin> set e \<and> e \<noteq> ''.'' \<and> e \<noteq> ''..'' \<longrightarrow> Join [d, e] = p @ e"
proof (cases "d = []")
  case True
  have "Join [d, e] = [] @ e"
    if e: "e \<noteq> []" "CHR ''/'' \<notin> set e" "e \<noteq> ''.''" "e \<noteq> ''..''" for e
  proof -
    from e have "hd e \<noteq> CHR ''/''" by (cases e) auto
    with e True show ?thesis
      by (simp add: Join_def Clean_def split_path_single clean_step_def)
  qed
  then show ?thesis by blast
next
  case False
  define st where "st = foldl (clean_step (hd d = CHR ''/'')) [] (split_path d)"
  define p where "p = (if hd d = CHR ''/'' then ''/'' else [])
     @ (if st = [] then [] else join_with ''/'' (rev st) @ ''/'')"
  have "Join [d, e] = p @ e"
    if e: "e \<noteq> []" "CHR ''/'' \<notin> set e" "e \<noteq> ''.''" "e \<noteq> ''..''" for e
  proof -
    have sp: "split_path (d @ CHR ''/'' # e) = split_path d @ [e]"
      using e by (simp add: split_path_append split_path_single)
    have st': "foldl (clean_step (hd d = CHR ''/'')) [] (split_path d @ [e]) = e # st"
      using e by (simp add: st_def clean_step_def)
    have out: "join_with ''/'' (rev (e # st))
        = (if st = [] then [] else join_with ''/'' (rev st) @ ''/'') @ e"
      by (simp add: join_with_snoc)
    have "Join [d, e] = Clean (d @ CHR ''/'' # e)"
      using False by (simp add: Join_def)
    also have "\<dots> = (if hd d = CHR ''/'' then ''/'' else []) @ join_with ''/'' (rev (e # st))"
      using False e unfolding Clean_def Let_def sp st' hd_append2 [OF False] out
      by simp
    finally show ?thesis unfolding out p_def by simp
  qed
  then show ?thesis by blast
qed

lemma Join_plain_name_inj:
  assumes "e1 \<noteq> []" "CHR ''/'' \<notin> set e1" "e1 \<noteq> ''.''" "e1 \<noteq> ''..''"
    and "e2 \<noteq> []" "CHR ''/'' \<notin> set e2" "e2 \<noteq> ''.''" "e2 \<noteq> ''..''"
    and "Join [d, e1] = Join [d, e2]"
  shows "e1 = e2"
proof -
  obtain p where
    "\<forall>e. e \<noteq> [] \<and> CHR ''/'' \<notin> set e \<and> e \<noteq> ''.'' \<and> e \<noteq> ''..'' \<longrightarrow> Join [d, e] = p @ e"
    using Join_plain_name by blast
  with assms show ?thesis by auto
qed

subsection \<open>Building a context (Core.appContext)\<close>

lemma appContext_Inr:
  assumes "appContext x c f w = (Inr ctx, w')"
  shows "Dir ctx = (if ID f = ID (appfile c) then Join [compileDir c, ''app'']
                    else Join [compileDir c, ''dep-'' @ ID f])"
    and "CacheDir ctx = Join [dataDir c, ''cache'', ID f]"
    and "DevDepFragments ctx = []"
    and "Appfile ctx = f"
  using assms
  by (auto simp: appContext_def Let_def split: option.splits prod.splits if_splits)

text \<open>
  C7. An Appfile without an active infrastructure: building its context fails with the
  error that names the project's infrastructure, and the world (disk and trace) is left
  as it was; no directory was made.
\<close>

theorem appContext_infra_not_configured:
  "ActiveInfrastructure f = None \<Longrightarrow>
   appContext x c f w =
     (Inl (''infrastructure not found in appfile: '' @ Infrastructure (Project f)), w)"
  by (simp add: appContext_def)

theorem appContext_infra_not_configured_witness:
  "ActiveInfrastructure ((demo_file ''d'')\<lparr>ActiveInfrastructure := None\<rparr>) = None \<and>
   appContext demo_externals (demo_core True)
       ((demo_file ''d'')\<lparr>ActiveInfrastructure := None\<rparr>) (demo_world [])
     = (Inl ''infrastructure not found in appfile: aws'', demo_world [])"
  using appContext_infra_not_configured
    [of "(demo_file ''d'')\<lparr>ActiveInfrastructure := None\<rparr>" demo_externals "demo_core True"
      "demo_world []"]
  by (simp add: demo_file_def)

text \<open>
  C8, as amended. When \<open>appContext\<close> succeeds for \<open>f\<close>, the output directory is
  \<^verbatim>\<open>Join(compileDir, "app")\<close> if \<open>f\<close> has the root Appfile's ID and
  \<^verbatim>\<open>Join(compileDir, "dep-" + ID)\<close> otherwise, and the cache directory is
  \<^verbatim>\<open>Join(dataDir, "cache", ID)\<close>. Two Appfiles with distinct IDs that contain no path
  separator get distinct output directories.
\<close>

theorem appContext_dirs:
  "appContext x c f w = (Inr ctx, w') \<Longrightarrow> appContext x c g v = (Inr ctx2, v') \<Longrightarrow>
   Dir ctx = (if ID f = ID (appfile c) then Join [compileDir c, ''app'']
              else Join [compileDir c, ''dep-'' @ ID f]) \<and>
   CacheDir ctx = Join [dataDir c, ''cache'', ID f] \<and>
   (ID f \<noteq> ID g \<and> CHR ''/'' \<notin> set (ID f) \<and> CHR ''/'' \<notin> set (ID g) \<longrightarrow> Dir ctx \<noteq> Dir ctx2)"
proof (intro conjI impI)
  assume f: "appContext x c f w = (Inr ctx, w')" and g: "appContext x c g v = (Inr ctx2, v')"
  show "Dir ctx = (if ID f = ID (appfile c) then Join [compileDir c, ''app'']
              else Join [compileDir c, ''dep-'' @ ID f])"
    and "CacheDir ctx = Join [dataDir c, ''cache'', ID f]"
    using appContext_Inr [OF f] by simp_all
  assume ids: "ID f \<noteq> ID g \<and> CHR ''/'' \<notin> set (ID f) \<and> CHR ''/'' \<notin> set (ID g)"
  define name where "name = (\<lambda>h::appfile. if ID h = ID (appfile c) then ''app'' else ''dep-'' @ ID h)"
  have dir: "Dir ctx = Join [compileDir c, name f]" "Dir ctx2 = Join [compileDir c, name g]"
    using appContext_Inr(1) [OF f] appContext_Inr(1) [OF g] by (simp_all add: name_def)
  have plain: "name h \<noteq> [] \<and> CHR ''/'' \<notin> set (name h) \<and> name h \<noteq> ''.'' \<and> name h \<noteq> ''..''"
    if "CHR ''/'' \<notin> set (ID h)" for h
    using that by (simp add: name_def)
  have "name f \<noteq> name g"
    using ids by (auto simp: name_def)
  then show "Dir ctx \<noteq> Dir ctx2"
    using Join_plain_name_inj [of "name f" "name g" "compileDir c"] plain [of f] plain [of g] ids
    unfolding dir by blast
qed

theorem appContext_dirs_witness:
  "\<exists>ctx w' ctx2 v'.
     appContext demo_externals (demo_core True) (demo_file ''r'') (demo_world []) = (Inr ctx, w') \<and>
     appContext demo_externals (demo_core True) (demo_file ''d'') (demo_world []) = (Inr ctx2, v') \<and>
     ID (demo_file ''r'') \<noteq> ID (demo_file ''d'') \<and>
     CHR ''/'' \<notin> set (ID (demo_file ''r'')) \<and> CHR ''/'' \<notin> set (ID (demo_file ''d'')) \<and>
     Dir ctx = ''/c/app'' \<and> CacheDir ctx = ''/data/cache/r'' \<and> Dir ctx \<noteq> Dir ctx2"
proof -
  obtain ctx w' where f:
    "appContext demo_externals (demo_core True) (demo_file ''r'') (demo_world []) = (Inr ctx, w')"
    by (simp add: appContext_def demo_file_def demo_core_def demo_externals_def
        os_MkdirAll_def Let_def)
  obtain ctx2 v' where g:
    "appContext demo_externals (demo_core True) (demo_file ''d'') (demo_world []) = (Inr ctx2, v')"
    by (simp add: appContext_def demo_file_def demo_core_def demo_externals_def
        os_MkdirAll_def Let_def)
  have ids: "ID (demo_file ''r'') \<noteq> ID (demo_file ''d'')"
    "CHR ''/'' \<notin> set (ID (demo_file ''r''))" "CHR ''/'' \<notin> set (ID (demo_file ''d''))"
    by (simp_all add: demo_file_def)
  have "Join [''/c'', ''app''] = ''/c/app''" "Join [''/data'', ''cache'', ''r''] = ''/data/cache/r''"
    by (simp_all add: Join_def Clean_def clean_step_def)
  with appContext_dirs [OF f g] ids
  have "Dir ctx = ''/c/app'' \<and> CacheDir ctx = ''/data/cache/r'' \<and> Dir ctx \<noteq> Dir ctx2"
    by (auto simp: demo_file_def demo_core_def)
  with f g ids show ?thesis by blast
qed

text \<open>
  The claim as stated fails: the dependency whose ID is \<^verbatim>\<open>x/../app\<close> gets the root's
  output directory, since \<^verbatim>\<open>filepath.Join\<close> cleans the path.
\<close>

theorem appContext_dirs_counterexample:
  "ID (demo_file ''r'') \<noteq> ID (demo_file ''x/../app'') \<and>
   map_sum id Dir
     (fst (appContext demo_externals (demo_core True) (demo_file ''r'') (demo_world [])))
     = Inr ''/c/app'' \<and>
   map_sum id Dir
     (fst (appContext demo_externals (demo_core True) (demo_file ''x/../app'') (demo_world [])))
     = Inr ''/c/app''"
  by (simp add: appContext_def demo_file_def demo_core_def demo_externals_def
      os_MkdirAll_def Let_def Join_def Clean_def clean_step_def)

subsection \<open>Execute\<close>

lemma executeApp_Dev_no_panic:
  "Task opts = ExecuteTaskDev \<Longrightarrow> executeApp x c opts w \<noteq> Panic msg"
  by (simp add: executeApp_def Let_def split: prod.splits sum.splits)

lemma executeInfra_no_panic: "executeInfra c opts w \<noteq> Panic msg"
  by (simp add: executeInfra_def Let_def split: prod.splits sum.splits)

text \<open>
  C10. \<open>Execute\<close> never panics: it runs \<open>executeApp\<close> for \<^verbatim>\<open>ExecuteTaskDev\<close>, where
  \<open>executeApp\<close> cannot reach its panic, runs \<open>executeInfra\<close> for \<^verbatim>\<open>ExecuteTaskInfra\<close>, and
  for every other task returns the unknown-task error with the world untouched, so no
  context was built and no plugin started or called.
\<close>

theorem Execute_dispatch:
  "Execute x c opts w \<noteq> Panic msg \<and>
   (Task opts = ExecuteTaskDev \<longrightarrow> Execute x c opts w = executeApp x c opts w) \<and>
   (Task opts = ExecuteTaskInfra \<longrightarrow> Execute x c opts w = executeInfra c opts w) \<and>
   (Task opts \<noteq> ExecuteTaskDev \<and> Task opts \<noteq> ExecuteTaskInfra \<longrightarrow>
      Execute x c opts w = Return (Some (''unknown task: '' @ Task_String x (Task opts)), w)) \<and>
   (executeApp x c opts w = Panic msg \<longrightarrow> Task opts \<noteq> ExecuteTaskDev)"
  using executeApp_Dev_no_panic [of opts x c w msg] executeInfra_no_panic [of c opts w msg]
  by (cases "Task opts") (auto simp: Execute_def)

theorem Execute_dispatch_witness:
  "Task \<lparr>Task = ExecuteTaskDev, opt_Action = ''destroy'', Args = []\<rparr> = ExecuteTaskDev \<and>
   Execute demo_externals (demo_core True)
       \<lparr>Task = ExecuteTaskDev, opt_Action = ''destroy'', Args = []\<rparr> (demo_world [])
     = executeApp demo_externals (demo_core True)
         \<lparr>Task = ExecuteTaskDev, opt_Action = ''destroy'', Args = []\<rparr> (demo_world []) \<and>
   Task \<lparr>Task = ExecuteTaskInfra, opt_Action = ''destroy'', Args = []\<rparr> = ExecuteTaskInfra \<and>
   Execute demo_externals (demo_core True)
       \<lparr>Task = ExecuteTaskInfra, opt_Action = ''destroy'', Args = []\<rparr> (demo_world [])
     = executeInfra (demo_core True)
         \<lparr>Task = ExecuteTaskInfra, opt_Action = ''destroy'', Args = []\<rparr> (demo_world []) \<and>
   Task \<lparr>Task = ExecuteTaskOther 7, opt_Action = ''destroy'', Args = []\<rparr> \<noteq> ExecuteTaskDev \<and>
   Task \<lparr>Task = ExecuteTaskOther 7, opt_Action = ''destroy'', Args = []\<rparr> \<noteq> ExecuteTaskInfra \<and>
   Execute demo_externals (demo_core True)
       \<lparr>Task = ExecuteTaskOther 7, opt_Action = ''destroy'', Args = []\<rparr> (demo_world [])
     = Return (Some ''unknown task: task'', demo_world []) \<and>
   executeApp demo_externals (demo_core True)
       \<lparr>Task = ExecuteTaskOther 7, opt_Action = ''destroy'', Args = []\<rparr> (demo_world [])
     = Panic ''uknown task: task'' \<and>
   Task \<lparr>Task = ExecuteTaskOther 7, opt_Action = ''destroy'', Args = []\<rparr> \<noteq> ExecuteTaskDev"
  using
    Execute_dispatch [of demo_externals "demo_core True"
      "\<lparr>Task = ExecuteTaskDev, opt_Action = ''destroy'', Args = []\<rparr>" "demo_world []" "[]"]
    Execute_dispatch [of demo_externals "demo_core True"
      "\<lparr>Task = ExecuteTaskInfra, opt_Action = ''destroy'', Args = []\<rparr>" "demo_world []" "[]"]
    Execute_dispatch [of demo_externals "demo_core True"
      "\<lparr>Task = ExecuteTaskOther 7, opt_Action = ''destroy'', Args = []\<rparr>" "demo_world []"
      "''uknown task: task''"]
  by (simp add: demo_externals_def executeApp_def appContext_def app_def demo_core_def
      demo_file_def os_MkdirAll_def Let_def)

subsection \<open>Credentials\<close>

lemma os_Stat_emit [simp]:
  "os_Stat path (emit e w) = os_Stat path w"
  "os_Stat path (w\<lparr>trace := t\<rparr>) = os_Stat path w"
  "os_Stat path (w\<lparr>answers := as\<rparr>) = os_Stat path w"
  by (simp_all add: os_Stat_def emit_def)

lemma creds_password_answers:
  "answers w = replicate k (Inr []) @ Inr password # rest \<Longrightarrow> password \<noteq> [] \<Longrightarrow>
   creds_password w =
     Return (Inr password,
       w\<lparr>answers := rest,
         trace := trace w @ replicate (Suc k)
           (UiInput ''creds_password'' ''Password for Encrypting Credentials''
              (TrimSpace credsQueryPassNew))\<rparr>)"
proof (induction k arbitrary: w)
  case 0
  then show ?case
    by (subst creds_password.simps) (simp add: Ui_Input_def emit_def)
next
  case (Suc k)
  let ?e = "UiInput ''creds_password'' ''Password for Encrypting Credentials''
              (TrimSpace credsQueryPassNew)"
  let ?w = "emit ?e (w\<lparr>answers := replicate k (Inr []) @ Inr password # rest\<rparr>)"
  have "creds_password w = creds_password ?w"
    using Suc.prems by (subst creds_password.simps) (simp add: Ui_Input_def)
  also have "\<dots> = Return (Inr password,
       ?w\<lparr>answers := rest, trace := trace ?w @ replicate (Suc k) ?e\<rparr>)"
    using Suc.prems by (intro Suc.IH) (simp_all add: emit_def)
  finally show ?case
    by (simp add: emit_def replicate_append_same)
qed

text \<open>
  C6. The encrypted file exists and the user answers the decryption prompt with the empty
  password, then (after \<open>k\<close> more empty answers) gives a password: \<open>creds\<close> announces
  the re-entry, calls \<^verbatim>\<open>infra.Creds\<close>, asks for the encryption password until it is not
  empty, and calls \<^verbatim>\<open>cryptWrite\<close> for \<^verbatim>\<open>localDir/creds\<close> with that password and the
  serialized map. Unless the write fails, the file holds the new map encrypted and the
  context carries the map.
\<close>

theorem creds_empty_password:
  assumes "os_Stat (Join [localDir c, ''creds'']) w"
    and "answers w = Inr [] # replicate k (Inr []) @ Inr password # rest"
    and "password \<noteq> []"
    and "infra_Creds i infraCtx = Inr m"
    and "json_Marshal x m = Inr plaintext"
  shows "\<exists>err w'.
     creds x c i infraCtx w
       = Return (err, if err = None then infraCtx\<lparr>InfraCreds := m\<rparr> else infraCtx, w') \<and>
     trace w' = trace w
       @ [UiHeader ''Detecting infrastructure credentials...'',
          UiMessage credsFoundMessage,
          UiInput ''creds_password'' ''Encrypted Credentials Password''
            (TrimSpace credsQueryPassExists),
          UiMessage credsNotFoundMessage,
          InfraCredsCall infraCtx]
       @ replicate (Suc k)
           (UiInput ''creds_password'' ''Password for Encrypting Credentials''
              (TrimSpace credsQueryPassNew))
       @ [CryptWrite (Join [localDir c, ''creds'']) password plaintext] \<and>
     answers w' = rest \<and>
     (err = None) = (io_error x (Join [localDir c, ''creds'']) = None) \<and>
     files w' = (if err = None
                 then (files w)(Join [localDir c, ''creds''] \<mapsto> encrypt x password plaintext)
                 else files w)"
proof -
  let ?path = "Join [localDir c, ''creds'']"
  let ?w3 = "emit (UiInput ''creds_password'' ''Encrypted Credentials Password''
                (TrimSpace credsQueryPassExists))
              ((emit (UiMessage credsFoundMessage)
                 (emit (UiHeader ''Detecting infrastructure credentials...'') w))
               \<lparr>answers := replicate k (Inr []) @ Inr password # rest\<rparr>)"
  let ?w4 = "emit (InfraCredsCall infraCtx) (emit (UiMessage credsNotFoundMessage) ?w3)"
  have 1: "creds x c i infraCtx w = creds_acquire x i infraCtx ?path None ?w3"
    using assms(1,2) by (simp add: creds_def Let_def Ui_Input_def emit_def)
  have "answers ?w4 = replicate k (Inr []) @ Inr password # rest"
    by (simp add: emit_def)
  from creds_password_answers [OF this assms(3)]
  have 2: "creds_acquire x i infraCtx ?path None ?w3
    = (case cryptWrite x ?path password plaintext
         (?w4\<lparr>answers := rest,
              trace := trace ?w4 @ replicate (Suc k)
                (UiInput ''creds_password'' ''Password for Encrypting Credentials''
                   (TrimSpace credsQueryPassNew))\<rparr>) of
         (Some err, w3) \<Rightarrow>
           Return (Some (''error writing encrypted credentials: '' @ err), infraCtx, w3)
       | (None, w3) \<Rightarrow> Return (None, infraCtx\<lparr>InfraCreds := m\<rparr>, w3))"
    using assms(4,5) by (simp add: creds_acquire_def Let_def)
  show ?thesis
    unfolding 1 2
    by (cases "io_error x ?path") (simp_all add: cryptWrite_def emit_def)
qed

theorem creds_empty_password_witness:
  "os_Stat (Join [localDir (demo_core True), ''creds''])
     (demo_saved [Inr [], Inr [], Inr ''new'']) \<and>
   answers (demo_saved [Inr [], Inr [], Inr ''new''])
     = Inr [] # replicate 1 (Inr []) @ Inr ''new'' # [] \<and>
   ''new'' \<noteq> [] \<and>
   infra_Creds demo_infra demo_infraCtx = Inr (Some [''AWS_KEY'' \<mapsto> ''y'']) \<and>
   json_Marshal demo_externals (Some [''AWS_KEY'' \<mapsto> ''y'']) = Inr ''json'' \<and>
   (\<exists>w'. creds demo_externals (demo_core True) demo_infra demo_infraCtx
            (demo_saved [Inr [], Inr [], Inr ''new''])
          = Return (None, demo_infraCtx\<lparr>InfraCreds := Some [''AWS_KEY'' \<mapsto> ''y'']\<rparr>, w') \<and>
        files w' ''/local/creds'' = Some ''newjson'' \<and> answers w' = [])"
proof -
  have path: "Join [localDir (demo_core True), ''creds''] = ''/local/creds''"
    by (simp add: demo_core_def Join_def Clean_def clean_step_def)
  have h1: "os_Stat (Join [localDir (demo_core True), ''creds''])
     (demo_saved [Inr [], Inr [], Inr ''new''])"
    unfolding path by (simp add: os_Stat_def demo_saved_def)
  have h2: "answers (demo_saved [Inr [], Inr [], Inr ''new''])
     = Inr [] # replicate 1 (Inr []) @ Inr ''new'' # []"
    by (simp add: demo_saved_def)
  have h3: "''new'' \<noteq> []" by simp
  have h4: "infra_Creds demo_infra demo_infraCtx = Inr (Some [''AWS_KEY'' \<mapsto> ''y''])"
    by (simp add: demo_infra_def)
  have h5: "json_Marshal demo_externals (Some [''AWS_KEY'' \<mapsto> ''y'']) = Inr ''json''"
    by (simp add: demo_externals_def)
  from creds_empty_password [OF h1 h2 h3 h4 h5] obtain err w' where
    r: "creds demo_externals (demo_core True) demo_infra demo_infraCtx
          (demo_saved [Inr [], Inr [], Inr ''new''])
        = Return (err, if err = None
                       then demo_infraCtx\<lparr>InfraCreds := Some [''AWS_KEY'' \<mapsto> ''y'']\<rparr>
                       else demo_infraCtx, w')"
      "answers w' = []"
      "(err = None) = (io_error demo_externals ''/local/creds'' = None)"
      "files w' = (if err = None
         then (files (demo_saved [Inr [], Inr [], Inr ''new'']))
                (''/local/creds'' \<mapsto> encrypt demo_externals ''new'' ''json'')
         else files (demo_saved [Inr [], Inr [], Inr ''new'']))"
    unfolding path by (elim exE conjE) (rule that)
  from r(3) have e: "err = None" by (simp add: demo_externals_def)
  from r(4) e have "files w' ''/local/creds'' = Some ''newjson''"
    by (simp add: demo_externals_def)
  with r(1,2) e h1 h2 h3 h4 h5 show ?thesis by auto
qed

text \<open>
  C2. The branch the claim singles out, at a concrete input: the file exists, the user
  gives the password it was saved under, decryption and parsing succeed, and \<open>creds\<close>
  returns without an error while \<open>InfraCreds\<close> is still the \<^verbatim>\<open>nil\<close> map: line 251
  returns before line 300 sets it.
\<close>

theorem creds_cached_InfraCreds_not_set:
  "os_Stat (Join [localDir (demo_core True), ''creds'']) (demo_saved [Inr ''correct'']) \<and>
   cryptRead demo_externals ''/local/creds'' ''correct'' (demo_saved [])
     = Inr ''{AWS_KEY:x}'' \<and>
   json_Unmarshal demo_externals ''{AWS_KEY:x}'' = Inr (Some [''AWS_KEY'' \<mapsto> ''x'']) \<and>
   (case creds demo_externals (demo_core True) demo_infra demo_infraCtx
           (demo_saved [Inr ''correct'']) of
      Return (err, infraCtx, w) \<Rightarrow> err = None \<and> InfraCreds infraCtx = None
    | Panic msg \<Rightarrow> False
    | Blocked \<Rightarrow> False)"
  by (simp add: creds_def Let_def Ui_Input_def cryptRead_def os_Stat_def demo_saved_def
      demo_externals_def demo_core_def demo_infraCtx_def emit_def Join_def Clean_def
      clean_step_def)

subsection \<open>The graph walk\<close>

lemma walk_invariant:
  assumes "P s" and "\<And>s e. P s \<Longrightarrow> P (walk_step x c f root s e)"
  shows "P (foldl (walk_step x c f root) s sched)"
  using assms(1) by (induction sched arbitrary: s) (simp_all add: assms(2))

lemma walk_step_stop_errs:
  "stop s = (errs s \<noteq> []) \<Longrightarrow>
   stop (walk_step x c f root s e) = (errs (walk_step x c f root s e) \<noteq> [])"
  by (cases e)
     (auto simp: walk_step_def Let_def split: option.splits prod.splits)

lemma map_of_filter_other:
  "a \<noteq> b \<Longrightarrow> map_of (filter (\<lambda>p. fst p \<noteq> b) xs) a = map_of xs a"
  by (induction xs) auto

lemma walk_step_keeps_told:
  "map_of (inflight s) a = Some told \<Longrightarrow> sched_vaddr e \<noteq> a \<Longrightarrow>
   map_of (inflight (walk_step x c f root s e)) a = Some told"
  by (cases e)
     (auto simp: walk_step_def Let_def map_of_filter_other split: option.splits prod.splits)

lemma walk_keeps_told:
  "map_of (inflight s) a = Some told \<Longrightarrow> a \<notin> sched_vaddr ` set mid \<Longrightarrow>
   map_of (inflight (foldl (walk_step x c f root) s mid)) a = Some told"
  by (induction mid arbitrary: s) (simp_all add: walk_step_keeps_told)

lemma walk_step_told:
  assumes "map_of (inflight s) (vaddr v) = Some True"
  shows "walk_step x c f root s (Returned v)
         = s\<lparr>inflight := filter (\<lambda>p. fst p \<noteq> vaddr v) (inflight s)\<rparr>"
  using assms by (simp add: walk_step_def)

lemma walk_step_Called_told:
  assumes "stop s" and "vaddr v \<notin> fst ` set (inflight s)"
  shows "map_of (inflight (walk_step x c f root s (Called v))) (vaddr v) = Some True"
proof -
  from assms(2) have "map_of (inflight s) (vaddr v) = None"
    by (simp add: map_of_eq_None_iff)
  with assms(1) show ?thesis
    by (simp add: walk_step_def map_add_def)
qed

lemma walk_step_pair:
  assumes "inflight s = []" and "stop s = (errs s \<noteq> [])" and "length (errs s) \<le> 1"
  shows "inflight (walk_step x c f root (walk_step x c f root s (Called v)) (Returned v)) = []
    \<and> stop (walk_step x c f root (walk_step x c f root s (Called v)) (Returned v))
        = (errs (walk_step x c f root (walk_step x c f root s (Called v)) (Returned v)) \<noteq> [])
    \<and> length (errs (walk_step x c f root (walk_step x c f root s (Called v)) (Returned v))) \<le> 1"
  using assms
  by (auto simp: walk_step_def Let_def split: option.splits prod.splits)

lemma walk_one_by_one:
  assumes "inflight s = []" and "stop s = (errs s \<noteq> [])" and "length (errs s) \<le> 1"
  shows "length (errs (foldl (walk_step x c f root) s (one_by_one vs))) \<le> 1"
  using assms
proof (induction vs arbitrary: s)
  case Nil
  then show ?case by (simp add: one_by_one_def)
next
  case (Cons v vs)
  from walk_step_pair [OF Cons.prems, of x c f root v] Cons.IH
  show ?case by (simp add: one_by_one_def)
qed


lemma length_filter_filter_le:
  "length (filter P (filter Q xs)) \<le> length (filter P xs)"
  by (induction xs) auto

lemma running_filter_less:
  "map_of xs a = Some False \<Longrightarrow>
   length (filter (\<lambda>p. \<not> snd p) (filter (\<lambda>p. fst p \<noteq> a) xs))
     < length (filter (\<lambda>p. \<not> snd p) xs)"
proof (induction xs)
  case Nil
  then show ?case by simp
next
  case (Cons p xs)
  have le: "length (filter (\<lambda>p. \<not> snd p) (filter (\<lambda>p. fst p \<noteq> a) xs))
      \<le> length (filter (\<lambda>p. \<not> snd p) xs)"
    by (rule length_filter_filter_le)
  show ?case
  proof (cases "fst p = a")
    case True
    with Cons.prems have "\<not> snd p" by (cases p) auto
    with True le show ?thesis by (simp add: less_Suc_eq_le)
  next
    case False
    with Cons.prems have "map_of xs a = Some False" by (cases p) auto
    from Cons.IH [OF this] False show ?thesis by simp
  qed
qed

lemma walk_step_after_stop:
  assumes "stop s"
  shows "stop (walk_step x c f root s e) \<and>
    length (errs (walk_step x c f root s e)) + running (walk_step x c f root s e)
      \<le> length (errs s) + running s"
proof (cases e)
  case (Called v)
  with assms show ?thesis by (simp add: walk_step_def running_def)
next
  case (Returned v)
  show ?thesis
  proof (cases "map_of (inflight s) (vaddr v)")
    case None
    with Returned assms show ?thesis by (simp add: walk_step_def)
  next
    case (Some told)
    have le: "length (filter (\<lambda>p. \<not> snd p) (filter (\<lambda>p. fst p \<noteq> vaddr v) (inflight s)))
        \<le> running s"
      unfolding running_def by (rule length_filter_filter_le)
    show ?thesis
    proof (cases told)
      case True
      with Some Returned assms le show ?thesis
        by (simp add: walk_step_def running_def)
    next
      case False
      with Some have "map_of (inflight s) (vaddr v) = Some False" by simp
      from running_filter_less [OF this] Some False Returned assms show ?thesis
        by (auto simp: walk_step_def running_def Let_def split: option.splits prod.splits)
    qed
  qed
qed

lemma walk_after_stop:
  "stop s \<Longrightarrow>
   length (errs (foldl (walk_step x c f root) s later)) \<le> length (errs s) + running s"
proof (induction later arbitrary: s)
  case Nil
  then show ?case by simp
next
  case (Cons e later)
  from walk_step_after_stop [OF Cons.prems, of x c f root e] Cons.IH [of "walk_step x c f root s e"]
  show ?case by simp
qed

text \<open>
  C4, as amended. In every walk the stop flag is set exactly when some callback has
  returned an error. A callback that starts once the flag is set returns, whatever
  happens in between, without an error and without touching the world or what the
  user's callback captured: no context is built, no app resolved, the user's callback
  not called. After the flag is set only the callbacks already in flight can add an
  error, so a walk whose callbacks do not overlap returns at most one error.
\<close>

theorem walk_fail_fast:
  "(let s = Graph_Walk x c f root sched l w in
      stop s = (errs s \<noteq> []) \<and>
      (stop s \<and> vaddr v \<notin> fst ` set (inflight s) \<and> vaddr v \<notin> sched_vaddr ` set mid \<longrightarrow>
         (let s1 = Graph_Walk x c f root (sched @ Called v # mid) l w;
              s2 = Graph_Walk x c f root (sched @ Called v # mid @ [Returned v]) l w
          in errs s2 = errs s1 \<and> loc s2 = loc s1 \<and> wld s2 = wld s1 \<and> stop s2 = stop s1)) \<and>
      (stop s \<longrightarrow>
         length (errs (Graph_Walk x c f root (sched @ later) l w))
           \<le> length (errs s) + running s)) \<and>
   length (errs (Graph_Walk x c f root (one_by_one vs) l w)) \<le> 1"
proof -
  define s where "s = Graph_Walk x c f root sched l w"
  have A: "stop s = (errs s \<noteq> [])"
    unfolding s_def Graph_Walk_def
    by (rule walk_invariant) (simp_all add: walk_step_stop_errs)
  have B: "errs s2 = errs s1 \<and> loc s2 = loc s1 \<and> wld s2 = wld s1 \<and> stop s2 = stop s1"
    if h: "stop s" "vaddr v \<notin> fst ` set (inflight s)" "vaddr v \<notin> sched_vaddr ` set mid"
      and s1: "s1 = Graph_Walk x c f root (sched @ Called v # mid) l w"
      and s2: "s2 = Graph_Walk x c f root (sched @ Called v # mid @ [Returned v]) l w"
    for s1 s2
  proof -
    have s1': "s1 = foldl (walk_step x c f root) (walk_step x c f root s (Called v)) mid"
      by (simp add: s1 s_def Graph_Walk_def)
    have s2': "s2 = walk_step x c f root s1 (Returned v)"
      by (simp add: s1 s2 Graph_Walk_def)
    have "map_of (inflight s1) (vaddr v) = Some True"
      unfolding s1' by (intro walk_keeps_told walk_step_Called_told h)
    from walk_step_told [OF this] show ?thesis
      by (simp add: s2')
  qed
  have C: "length (errs (Graph_Walk x c f root (one_by_one vs) l w)) \<le> 1"
    unfolding Graph_Walk_def by (rule walk_one_by_one) simp_all
  have D: "length (errs (Graph_Walk x c f root (sched @ later) l w))
      \<le> length (errs s) + running s" if "stop s"
    using walk_after_stop [OF that, of x c f root later]
    by (simp add: s_def Graph_Walk_def)
  from A B C D show ?thesis
    unfolding Let_def s_def by blast
qed

theorem walk_fail_fast_witness:
  "stop (Graph_Walk demo_externals (demo_core False) Compile_callback (demo_vertex 0 ''r'')
      [Called (demo_vertex 1 ''d1''), Returned (demo_vertex 1 ''d1'')] [] (demo_world [])) \<and>
   vaddr (demo_vertex 2 ''d2'') \<notin> fst ` set (inflight
     (Graph_Walk demo_externals (demo_core False) Compile_callback (demo_vertex 0 ''r'')
       [Called (demo_vertex 1 ''d1''), Returned (demo_vertex 1 ''d1'')] [] (demo_world []))) \<and>
   vaddr (demo_vertex 2 ''d2'') \<notin> sched_vaddr ` set [] \<and>
   errs (Graph_Walk demo_externals (demo_core False) Compile_callback (demo_vertex 0 ''r'')
      ([Called (demo_vertex 1 ''d1''), Returned (demo_vertex 1 ''d1'')]
       @ Called (demo_vertex 2 ''d2'') # [] @ [Returned (demo_vertex 2 ''d2'')]) []
      (demo_world []))
     = [''cannot compile d1''] \<and>
   length (errs (Graph_Walk demo_externals (demo_core False) Compile_callback
      (demo_vertex 0 ''r'')
      (one_by_one [demo_vertex 1 ''d1'', demo_vertex 2 ''d2'', demo_vertex 0 ''r'']) []
      (demo_world []))) \<le> 1"
proof -
  let ?s = "Graph_Walk demo_externals (demo_core False) Compile_callback (demo_vertex 0 ''r'')
      [Called (demo_vertex 1 ''d1''), Returned (demo_vertex 1 ''d1'')] [] (demo_world [])"
  have h: "stop ?s" "vaddr (demo_vertex 2 ''d2'') \<notin> fst ` set (inflight ?s)"
    "vaddr (demo_vertex 2 ''d2'') \<notin> sched_vaddr ` set []"
    by (simp_all add: eval_defs demo_defs)
  have e: "errs (Graph_Walk demo_externals (demo_core False) Compile_callback
      (demo_vertex 0 ''r'')
      ([Called (demo_vertex 1 ''d1''), Returned (demo_vertex 1 ''d1'')]
       @ Called (demo_vertex 2 ''d2'') # []) [] (demo_world [])) = [''cannot compile d1'']"
    by (simp add: eval_defs demo_defs)
  from walk_fail_fast [of demo_externals "demo_core False" Compile_callback "demo_vertex 0 ''r''"
      "[Called (demo_vertex 1 ''d1''), Returned (demo_vertex 1 ''d1'')]" "[]" "demo_world []"
      "demo_vertex 2 ''d2''" "[]" "[]"
      "[demo_vertex 1 ''d1'', demo_vertex 2 ''d2'', demo_vertex 0 ''r'']"] h e
  show ?thesis
    unfolding Let_def by simp
qed

text \<open>
  The claim as stated fails: the callbacks for two independent dependencies both start
  before either returns, both fail, and the walker is handed two errors.
\<close>

theorem walk_fail_fast_counterexample:
  "errs (Graph_Walk demo_externals (demo_core False) Compile_callback (demo_vertex 0 ''r'')
      [Called (demo_vertex 1 ''d1''), Called (demo_vertex 2 ''d2''),
       Returned (demo_vertex 1 ''d1''), Returned (demo_vertex 2 ''d2'')] [] (demo_world []))
   = [''cannot compile d1'', ''cannot compile d2'']"
  by (simp add: eval_defs demo_defs)

subsection \<open>What a callback leaves in the trace and on disk\<close>


lemma app_fst: "fst (app x c ctx w) = fst (app x c ctx w')"
  by (simp add: app_def split: option.splits sum.splits)

lemma appContext_snd:
  "fst (appContext x c f w) = Inr ctx \<Longrightarrow>
   trace (snd (appContext x c f w)) = trace w @ [OsMkdirAll (CacheDir ctx)] \<and>
   files (snd (appContext x c f w)) = files w"
  by (auto simp: appContext_def os_MkdirAll_def emit_def Let_def split: option.splits)

lemma appContext_Inl_snd:
  "fst (appContext x c f w) = Inl err \<Longrightarrow>
   (\<exists>evs. trace (snd (appContext x c f w)) = trace w @ evs \<and> set evs \<subseteq> range OsMkdirAll) \<and>
   files (snd (appContext x c f w)) = files w"
  by (auto simp: appContext_def os_MkdirAll_def emit_def Let_def split: option.splits)

lemma app_snd:
  "fst (app x c ctx w) = Inr a \<Longrightarrow>
   snd (app x c ctx w) = emit (AppFactory (Tuple ctx)) w"
  by (auto simp: app_def split: option.splits sum.splits)

lemma app_Inl_snd:
  "fst (app x c ctx w) = Inl err \<Longrightarrow>
   snd (app x c ctx w) = w \<or> snd (app x c ctx w) = emit (AppFactory (Tuple ctx)) w"
  by (auto simp: app_def split: option.splits sum.splits)

lemma walk_vertex_cases:
  "walk_vertex x c f root v l w =
     (case fst (appContext x c (File v) w) of
        Inl err \<Rightarrow>
          (Some (''Error loading Appfile for '' @ [CHR 0x27] @ VertexName v @ [CHR 0x27]
                 @ '': '' @ err), l, snd (appContext x c (File v) w))
      | Inr ctx \<Rightarrow>
          (case fst (app x c ctx w) of
             Inl err \<Rightarrow>
               (Some (''Error loading App implementation for '' @ [CHR 0x27] @ VertexName v
                      @ [CHR 0x27] @ '': '' @ err), l,
                snd (app x c ctx (snd (appContext x c (File v) w))))
           | Inr a \<Rightarrow>
               f a ctx (vaddr v = vaddr root) l
                 (emit (AppFactory (Tuple ctx)) (snd (appContext x c (File v) w)))))"
proof (cases "fst (appContext x c (File v) w)")
  case (Inl err)
  then show ?thesis
    by (simp add: walk_vertex_def case_prod_unfold)
next
  case (Inr ctx)
  show ?thesis
  proof (cases "fst (app x c ctx w)")
    case (Inl err)
    with app_fst [of x c ctx w "snd (appContext x c (File v) w)"]
    have "fst (app x c ctx (snd (appContext x c (File v) w))) = Inl err" by simp
    with Inr Inl show ?thesis
      by (simp add: walk_vertex_def case_prod_unfold)
  next
    case a: (Inr a)
    with app_fst [of x c ctx w "snd (appContext x c (File v) w)"]
    have 1: "fst (app x c ctx (snd (appContext x c (File v) w))) = Inr a" by simp
    from app_snd [OF 1] 1 Inr a show ?thesis
      by (simp add: walk_vertex_def case_prod_unfold)
  qed
qed


lemma compiled_append: "compiled (es @ es') = compiled es @ compiled es'"
  by (induction es rule: compiled.induct) simp_all

lemma compile_contexts_append:
  "compile_contexts (es @ es') = compile_contexts es @ compile_contexts es'"
  by (induction es rule: compile_contexts.induct) simp_all



lemma cache_writes_append: "cache_writes (es @ es') = cache_writes es @ cache_writes es'"
  by (induction es rule: cache_writes.induct) simp_all

subsection \<open>Compile\<close>

lemma Compile_callback_run:
  "Compile_callback a ctx isroot results w =
     (let ctx' = ctx\<lparr>DevDepFragments :=
                  if isroot then filter (\<lambda>p. p \<noteq> []) (map DevDepFragmentPath results)
                  else DevDepFragments ctx\<rparr>;
          res = app_Compile a ctx'
      in (case res of Inl err \<Rightarrow> Some err | Inr result \<Rightarrow> None,
          results @ (case res of Inl err \<Rightarrow> [] | Inr result \<Rightarrow> [result]),
          emit (AppCompile ctx' res)
            (emit (UiMessage
               (if \<not> isroot then ''Compiling dependency '' @ [CHR 0x27]
                     @ Name (Application (Appfile ctx)) @ [CHR 0x27] @ ''...''
                else ''Compiling main application...'')) w)))"
  by (cases isroot)
     (simp_all add: Compile_callback_def Let_def filter_map comp_def split: sum.splits)

lemma walk_vertex_Compile_compiled:
  "compiled (trace (snd (snd (walk_vertex x c Compile_callback root v l w))))
     = compiled (trace w) @ drop (length l) (fst (snd (walk_vertex x c Compile_callback root v l w)))
   \<and> take (length l) (fst (snd (walk_vertex x c Compile_callback root v l w))) = l"
proof (cases "fst (appContext x c (File v) w)")
  case (Inl err)
  from appContext_Inl_snd [OF Inl] obtain evs where
    "trace (snd (appContext x c (File v) w)) = trace w @ evs" "set evs \<subseteq> range OsMkdirAll"
    by blast
  moreover from this(2) have "compiled evs = []"
    by (induction evs) auto
  ultimately show ?thesis
    using Inl by (simp add: walk_vertex_cases compiled_append)
next
  case (Inr ctx)
  show ?thesis
  proof (cases "fst (app x c ctx w)")
    case (Inl err)
    with app_fst [of x c ctx w "snd (appContext x c (File v) w)"]
    have "fst (app x c ctx (snd (appContext x c (File v) w))) = Inl err" by simp
    from app_Inl_snd [OF this] appContext_snd [OF Inr] Inr Inl show ?thesis
      by (auto simp: walk_vertex_cases compiled_append emit_def)
  next
    case a: (Inr a)
    from appContext_snd [OF Inr] Inr a show ?thesis
      by (simp add: walk_vertex_cases Compile_callback_run Let_def compiled_append emit_def
          split: sum.splits)
  qed
qed

lemma walk_step_Compile_compiled:
  assumes "compiled (trace (wld s)) = base @ loc s"
  shows "compiled (trace (wld (walk_step x c Compile_callback root s e)))
         = base @ loc (walk_step x c Compile_callback root s e)"
proof (cases e)
  case (Called v)
  with assms show ?thesis by (simp add: walk_step_def)
next
  case (Returned v)
  obtain err l' w' where r: "walk_vertex x c Compile_callback root v (loc s) (wld s) = (err, l', w')"
    by (cases "walk_vertex x c Compile_callback root v (loc s) (wld s)") auto
  from walk_vertex_Compile_compiled [of x c root v "loc s" "wld s"] r
  have "compiled (trace w') = compiled (trace (wld s)) @ drop (length (loc s)) l'"
    and "take (length (loc s)) l' = loc s" by simp_all
  then have "compiled (trace w') = base @ l'"
    using assms by (metis append.assoc append_take_drop_id)
  with assms Returned r show ?thesis
    by (auto simp: walk_step_def Let_def split: option.splits)
qed

lemma Graph_Walk_Compile_compiled:
  "compiled (trace (wld (Graph_Walk x c Compile_callback root sched [] w)))
     = compiled (trace w) @ loc (Graph_Walk x c Compile_callback root sched [] w)"
  unfolding Graph_Walk_def
  by (rule walk_invariant) (simp_all add: walk_step_Compile_compiled)

text \<open>
  C3. At any moment of a Compile walk the results list holds exactly what the calls of
  \<^verbatim>\<open>app.Compile\<close> made so far have returned without an error, in that order. A callback
  that fires then hands \<^verbatim>\<open>app.Compile\<close> the context of its vertex with \<open>DevDepFragments\<close>
  set, for the root, to the non-empty \<open>DevDepFragmentPath\<close>s of that list, and left
  empty for any other vertex.
\<close>

theorem Compile_root_fragments:
  "s = Graph_Walk x c Compile_callback root sched [] w \<Longrightarrow>
   fst (appContext x c (File v) (wld s)) = Inr ctx \<Longrightarrow>
   fst (app x c ctx (wld s)) = Inr a \<Longrightarrow>
   compiled (trace (wld s)) = compiled (trace w) @ loc s \<and>
   DevDepFragments ctx = [] \<and>
   compile_contexts
       (trace (snd (snd (walk_vertex x c Compile_callback root v (loc s) (wld s)))))
     = compile_contexts (trace (wld s))
       @ [ctx\<lparr>DevDepFragments :=
               if vaddr v = vaddr root
               then filter (\<lambda>p. p \<noteq> []) (map DevDepFragmentPath (loc s)) else []\<rparr>]"
proof (intro conjI)
  assume s: "s = Graph_Walk x c Compile_callback root sched [] w"
    and ctx: "fst (appContext x c (File v) (wld s)) = Inr ctx"
    and a: "fst (app x c ctx (wld s)) = Inr a"
  show "compiled (trace (wld s)) = compiled (trace w) @ loc s"
    unfolding s by (rule Graph_Walk_Compile_compiled)
  obtain w' where "appContext x c (File v) (wld s) = (Inr ctx, w')"
    using ctx by (cases "appContext x c (File v) (wld s)") auto
  from appContext_Inr(3) [OF this] show empty: "DevDepFragments ctx = []" .
  from appContext_snd [OF ctx] ctx a empty
  show "compile_contexts
       (trace (snd (snd (walk_vertex x c Compile_callback root v (loc s) (wld s)))))
     = compile_contexts (trace (wld s))
       @ [ctx\<lparr>DevDepFragments :=
               if vaddr v = vaddr root
               then filter (\<lambda>p. p \<noteq> []) (map DevDepFragmentPath (loc s)) else []\<rparr>]"
    by (simp add: walk_vertex_cases Compile_callback_run Let_def compile_contexts_append
        emit_def)
qed


theorem Compile_root_fragments_witness:
  "fst (appContext demo_externals (demo_core True) (File (demo_vertex 0 ''r''))
          (wld (Graph_Walk demo_externals (demo_core True) Compile_callback (demo_vertex 0 ''r'')
                  (one_by_one [demo_vertex 1 ''d1'']) [] (demo_world []))))
     = Inr (demo_ctx ''/c/app'' ''r'') \<and>
   fst (app demo_externals (demo_core True) (demo_ctx ''/c/app'' ''r'')
          (wld (Graph_Walk demo_externals (demo_core True) Compile_callback (demo_vertex 0 ''r'')
                  (one_by_one [demo_vertex 1 ''d1'']) [] (demo_world []))))
     = Inr (demo_app True) \<and>
   loc (Graph_Walk demo_externals (demo_core True) Compile_callback (demo_vertex 0 ''r'')
          (one_by_one [demo_vertex 1 ''d1'']) [] (demo_world []))
     = [\<lparr>DevDepFragmentPath = ''/c/dep-d1/frag.sh''\<rparr>] \<and>
   compile_contexts
     (trace (snd (snd (walk_vertex demo_externals (demo_core True) Compile_callback
        (demo_vertex 0 ''r'') (demo_vertex 0 ''r'')
        (loc (Graph_Walk demo_externals (demo_core True) Compile_callback (demo_vertex 0 ''r'')
                (one_by_one [demo_vertex 1 ''d1'']) [] (demo_world [])))
        (wld (Graph_Walk demo_externals (demo_core True) Compile_callback (demo_vertex 0 ''r'')
                (one_by_one [demo_vertex 1 ''d1'']) [] (demo_world [])))))))
     = [demo_ctx ''/c/dep-d1'' ''d1'',
        (demo_ctx ''/c/app'' ''r'')\<lparr>DevDepFragments := [''/c/dep-d1/frag.sh'']\<rparr>]"
proof -
  define s where "s = Graph_Walk demo_externals (demo_core True) Compile_callback
    (demo_vertex 0 ''r'') (one_by_one [demo_vertex 1 ''d1'']) [] (demo_world [])"
  have h1: "fst (appContext demo_externals (demo_core True) (File (demo_vertex 0 ''r'')) (wld s))
      = Inr (demo_ctx ''/c/app'' ''r'')"
    by (simp add: appContext_def os_MkdirAll_def Join_def Clean_def clean_step_def Let_def
        demo_externals_def demo_core_def demo_file_def demo_vertex_def demo_ctx_def)
  have h2: "fst (app demo_externals (demo_core True) (demo_ctx ''/c/app'' ''r'') (wld s))
      = Inr (demo_app True)"
    by (simp add: app_def demo_core_def demo_ctx_def)
  have l: "loc s = [\<lparr>DevDepFragmentPath = ''/c/dep-d1/frag.sh''\<rparr>]"
    unfolding s_def by (simp add: one_by_one_def eval_defs demo_defs)
  have t: "compile_contexts (trace (wld s)) = [demo_ctx ''/c/dep-d1'' ''d1'']"
    unfolding s_def by (simp add: one_by_one_def eval_defs demo_defs demo_ctx_def)
  from Compile_root_fragments [OF s_def h1 h2] h1 h2 l t show ?thesis
    unfolding s_def [symmetric] by (simp add: demo_vertex_def)
qed

text \<open>
  C1. A walk with one dependency whose \<^verbatim>\<open>app.Compile\<close> fails: \<open>walk\<close> returns the error,
  and \<open>Compile\<close>, whose line 109 stores it in \<^verbatim>\<open>err\<close>, returns \<^verbatim>\<open>nil\<close> at line 148.
\<close>

theorem Compile_drops_walk_error:
  "fst (walk demo_externals (demo_core False) Compile_callback
          [Called (demo_vertex 1 ''d1''), Returned (demo_vertex 1 ''d1'')] [] (demo_world []))
     = Some ''cannot compile d1'' \<and>
   compile_errors (trace (snd (Compile demo_externals (demo_core False)
          [Called (demo_vertex 1 ''d1''), Returned (demo_vertex 1 ''d1'')] (demo_world []))))
     = [''cannot compile d1''] \<and>
   fst (Compile demo_externals (demo_core False)
          [Called (demo_vertex 1 ''d1''), Returned (demo_vertex 1 ''d1'')] (demo_world []))
     = None"
  by (simp add: Compile_def walk_def infra_def os_RemoveAll_def demo_infra_def eval_defs
      demo_defs)

subsection \<open>Dev\<close>


















lemma headers_append: "headers (es @ es') = headers es @ headers es'"
  by (induction es rule: headers.induct) simp_all





















end
